theory Spec2Isabelle
  imports Main "HOL-Library.Word"
begin

unbundle bit_operations_syntax

section \<open>Data model\<close>

text \<open>
  Machine types of the C++ sources: \<open>uint8_t\<close>, \<open>uint32_t\<close>, \<open>uint64_t\<close> and
  \<open>uintptr_t\<close> (\<open>MemoryAddress\<close>, 64 bits on the target) are words of that width.
  An \<open>int32_t\<close> is kept as its 32-bit pattern; \<open>sint\<close> reads its value.
  Sizes and counts of type \<open>size_t\<close> are natural numbers, with the wrap-around
  at \<open>2 ^ 64\<close> written out where the source subtracts or adds them.
\<close>

type_synonym byte = "8 word"
type_synonym u32 = "32 word"
type_synonym u64 = "64 word"
type_synonym MemoryAddress = "64 word"
type_synonym ByteVector = "byte list"

text \<open>\<open>struct BigIntegerContents\<close> (obscured_biginteger_reader.hpp).\<close>

record BigIntegerContents =
  sign :: u32
  bits_ptr :: MemoryAddress
  bits_length :: u32
  bits_data :: "u32 list"

text \<open>\<open>struct DotNetBigIntegerData\<close> (dotnet_biginteger_reader.hpp).\<close>

record DotNetBigIntegerData =
  sign :: u32
  bits_ptr :: MemoryAddress
  bits_length :: u32
  bits_data :: "u32 list"
  is_valid :: bool

text \<open>\<open>struct SerializableBigInteger\<close>: both readings of the same bytes.\<close>

record SerializableBigInteger =
  bigint_value :: DotNetBigIntegerData
  raw_contents :: BigIntegerContents
  is_valid :: bool

text \<open>\<open>struct ObscuredBigIntegerData\<close>.\<close>

record ObscuredBigIntegerData =
  hidden_value :: SerializableBigInteger
  fake_value :: SerializableBigInteger
  current_crypto_key :: u32
  fake_value_active :: bool
  inited :: bool
  is_valid :: bool

section \<open>The shuffle cipher\<close>

text \<open>
  \<open>ObscuredBigIntegerReader::DecryptBigIntegerContents\<close>: the sign is XOR-ed with the
  key; a single limb is XOR-ed with the key; with more than one limb the first and the
  last limb are swapped, each XOR-ed with the key. The two indexed writes of the source
  are the two list updates, in the source's order.
\<close>

definition DecryptBigIntegerContents :: "BigIntegerContents \<Rightarrow> u32 \<Rightarrow> BigIntegerContents" where
  "DecryptBigIntegerContents encrypted key =
     (let result = encrypted\<lparr>BigIntegerContents.sign := BigIntegerContents.sign encrypted XOR key\<rparr>
      in if BigIntegerContents.bits_data result \<noteq> [] then
           (let count = length (BigIntegerContents.bits_data result)
            in if count = 1 then
                 result\<lparr>BigIntegerContents.bits_data :=
                   (BigIntegerContents.bits_data result)
                     [0 := BigIntegerContents.bits_data result ! 0 XOR key]\<rparr>
               else if count > 1 then
                 (let first = BigIntegerContents.bits_data result ! 0;
                      last = BigIntegerContents.bits_data result ! (count - 1)
                  in result\<lparr>BigIntegerContents.bits_data :=
                       ((BigIntegerContents.bits_data result)
                          [0 := last XOR key])[count - 1 := first XOR key]\<rparr>)
               else result)
         else result)"

text \<open>
  \<open>ObscuredBigIntegerReader::DecryptSerializableBigInteger\<close>: only the raw contents are
  decrypted; the \<open>bigint_value\<close> of the copy is left as it was read.
\<close>

definition DecryptSerializableBigInteger ::
    "SerializableBigInteger \<Rightarrow> u32 \<Rightarrow> SerializableBigInteger" where
  "DecryptSerializableBigInteger encrypted key =
     encrypted\<lparr>raw_contents := DecryptBigIntegerContents (raw_contents encrypted) key\<rparr>"

text \<open>\<open>ObscuredBigIntegerReader::DecryptHiddenValue\<close>; \<open>std::nullopt\<close> is \<open>None\<close>.\<close>

definition DecryptHiddenValue :: "ObscuredBigIntegerData \<Rightarrow> DotNetBigIntegerData option" where
  "DecryptHiddenValue obscured =
     (if \<not> ObscuredBigIntegerData.is_valid obscured then None
      else let decrypted_serializable =
                 DecryptSerializableBigInteger (hidden_value obscured) (current_crypto_key obscured)
           in Some (bigint_value decrypted_serializable))"

section \<open>Reading the target process\<close>

text \<open>
  The operating system's \<open>ReadProcessMemory\<close> on an open handle is the boundary of the
  model. The target is a live process, so a read is an effect: it takes the state \<open>'w\<close>
  of the outside world and returns the next one, and two reads of one address need not
  agree. \<open>None\<close> is the call returning \<open>FALSE\<close>; \<open>Some bytes\<close> is the call
  returning \<open>TRUE\<close> with \<open>bytes_read = length bytes\<close>.
\<close>

type_synonym 'w ReadProcessMemory = "'w \<Rightarrow> MemoryAddress \<Rightarrow> nat \<Rightarrow> ByteVector option \<times> 'w"

text \<open>
  \<open>class ProcessManager\<close>: a null handle is \<open>None\<close>. Member names are written
  without the trailing underscore of the source.
\<close>

record 'w ProcessManager =
  process_handle :: "'w ReadProcessMemory option"

definition MAX_READ_SIZE :: nat where
  "MAX_READ_SIZE = 0x1000000"

definition IsAttached :: "'w ProcessManager \<Rightarrow> bool" where
  "IsAttached pm = (process_handle pm \<noteq> None)"

text \<open>
  \<open>ProcessManager::ReadMemory\<close>. The buffer pointer of the source is never null at its
  call sites; the bytes written to the buffer are returned.
\<close>

definition ReadMemory ::
    "'w ProcessManager \<Rightarrow> 'w \<Rightarrow> MemoryAddress \<Rightarrow> nat \<Rightarrow> ByteVector option \<times> 'w" where
  "ReadMemory pm w address sz =
     (case process_handle pm of
        None \<Rightarrow> (None, w)
      | Some read_process_memory \<Rightarrow>
          if sz = 0 then (None, w)
          else if sz > MAX_READ_SIZE then (None, w)
          else (case read_process_memory w address sz of
                  (None, w') \<Rightarrow> (None, w')
                | (Some bytes, w') \<Rightarrow>
                    if length bytes \<noteq> sz then (None, w') else (Some bytes, w')))"

text \<open>\<open>class MemoryScanner\<close>, with the member the modelled functions use.\<close>

record 'w MemoryScanner =
  process_mgr :: "'w ProcessManager"

text \<open>
  \<open>MemoryScanner::ReadValue<T>\<close>: \<open>sizeof(T)\<close> bytes are read into a \<open>T\<close>. The
  target is little-endian, so the first byte is the least significant one.
\<close>

definition ReadValue ::
    "'w MemoryScanner \<Rightarrow> (ByteVector \<Rightarrow> 'a) \<Rightarrow> nat \<Rightarrow> 'w \<Rightarrow> MemoryAddress \<Rightarrow> 'a option \<times> 'w" where
  "ReadValue scanner from_bytes sizeof_T w address =
     (case ReadMemory (process_mgr scanner) w address sizeof_T of
        (Some bytes, w') \<Rightarrow> (Some (from_bytes bytes), w')
      | (None, w') \<Rightarrow> (None, w'))"

definition from_le32 :: "ByteVector \<Rightarrow> u32" where
  "from_le32 bytes = word_rcat (rev bytes)"

definition from_le64 :: "ByteVector \<Rightarrow> u64" where
  "from_le64 bytes = word_rcat (rev bytes)"

definition from_bool :: "ByteVector \<Rightarrow> bool" where
  "from_bool bytes = (bytes ! 0 \<noteq> 0)"

definition ReadInt32 :: "'w MemoryScanner \<Rightarrow> 'w \<Rightarrow> MemoryAddress \<Rightarrow> u32 option \<times> 'w" where
  "ReadInt32 scanner w address = ReadValue scanner from_le32 4 w address"

definition ReadUInt32 :: "'w MemoryScanner \<Rightarrow> 'w \<Rightarrow> MemoryAddress \<Rightarrow> u32 option \<times> 'w" where
  "ReadUInt32 scanner w address = ReadValue scanner from_le32 4 w address"

definition ReadUInt64 :: "'w MemoryScanner \<Rightarrow> 'w \<Rightarrow> MemoryAddress \<Rightarrow> u64 option \<times> 'w" where
  "ReadUInt64 scanner w address = ReadValue scanner from_le64 8 w address"

definition ReadBool :: "'w MemoryScanner \<Rightarrow> 'w \<Rightarrow> MemoryAddress \<Rightarrow> bool option \<times> 'w" where
  "ReadBool scanner w address = ReadValue scanner from_bool 1 w address"

text \<open>
  The loop of \<open>MemoryScanner::ReadUInt32Array\<close>: \<open>n\<close> elements are still to be read,
  the next one has index \<open>i\<close>; the first failed read ends the loop with \<open>std::nullopt\<close>.
\<close>

fun ReadUInt32Array_loop ::
    "'w MemoryScanner \<Rightarrow> MemoryAddress \<Rightarrow> 'w \<Rightarrow> nat \<Rightarrow> nat \<Rightarrow> u32 list \<Rightarrow> u32 list option \<times> 'w" where
  "ReadUInt32Array_loop scanner address w i 0 result = (Some result, w)"
| "ReadUInt32Array_loop scanner address w i (Suc n) result =
     (case ReadUInt32 scanner w (address + of_nat i * 4) of
        (None, w') \<Rightarrow> (None, w')
      | (Some v, w') \<Rightarrow> ReadUInt32Array_loop scanner address w' (Suc i) n (result @ [v]))"

definition ReadUInt32Array ::
    "'w MemoryScanner \<Rightarrow> 'w \<Rightarrow> MemoryAddress \<Rightarrow> nat \<Rightarrow> u32 list option \<times> 'w" where
  "ReadUInt32Array scanner w address count =
     (if count = 0 then (Some [], w)
      else ReadUInt32Array_loop scanner address w 0 count [])"

text \<open>\<open>MemoryScanner::ReadBytes\<close>: the empty vector stands for a failed read.\<close>

definition ReadBytes :: "'w MemoryScanner \<Rightarrow> 'w \<Rightarrow> MemoryAddress \<Rightarrow> nat \<Rightarrow> ByteVector \<times> 'w" where
  "ReadBytes scanner w address sz =
     (case ReadMemory (process_mgr scanner) w address sz of
        (Some buffer, w') \<Rightarrow> (buffer, w')
      | (None, w') \<Rightarrow> ([], w'))"

section \<open>The big-integer structure reader\<close>

definition MIN_VALID_POINTER :: MemoryAddress where
  "MIN_VALID_POINTER = 0x10000"

definition MAX_VALID_POINTER :: MemoryAddress where
  "MAX_VALID_POINTER = 0x7FFFFFFFFFFF"

definition MAX_REASONABLE_BITS_LENGTH :: u32 where
  "MAX_REASONABLE_BITS_LENGTH = 10000"

definition IsValidPointer :: "MemoryAddress \<Rightarrow> bool" where
  "IsValidPointer address = (address \<ge> MIN_VALID_POINTER \<and> address \<le> MAX_VALID_POINTER)"

definition IsValidBitsLength :: "u32 \<Rightarrow> bool" where
  "IsValidBitsLength len = (len \<le> MAX_REASONABLE_BITS_LENGTH)"

text \<open>
  The backward loop over the probe array,
  \<open>for (int i = probe_array->size() - 1; i >= 0; --i)\<close>: the second argument is
  \<open>i + 1\<close>; the result is the value \<open>actual_length\<close> has after the loop.
\<close>

fun probe_actual_length :: "u32 list \<Rightarrow> nat \<Rightarrow> u32" where
  "probe_actual_length probe_array 0 = 0"
| "probe_actual_length probe_array (Suc i) =
     (if probe_array ! i \<noteq> 0 then of_nat (i + 1)
      else probe_actual_length probe_array i)"

text \<open>
  \<open>DotNetBigIntegerReader::ReadBigInteger\<close>. The reader's scanner member is a shared
  pointer that may be null (\<open>None\<close>).
\<close>

definition ReadBigInteger ::
    "'w MemoryScanner option \<Rightarrow> 'w \<Rightarrow> MemoryAddress \<Rightarrow> DotNetBigIntegerData option \<times> 'w" where
  "ReadBigInteger scanner_ptr w base_address =
     (case scanner_ptr of
        None \<Rightarrow> (None, w)
      | Some scanner \<Rightarrow>
          if \<not> IsValidPointer base_address then (None, w)
          else
            (case ReadInt32 scanner w base_address of
               (None, w1) \<Rightarrow> (None, w1)
             | (Some sign_v, w1) \<Rightarrow>
                 (case ReadUInt64 scanner w1 (base_address + 4) of
                    (None, w2) \<Rightarrow> (None, w2)
                  | (Some bits_ptr_v, w2) \<Rightarrow>
                      if \<not> IsValidPointer bits_ptr_v then (None, w2)
                      else
                        (case ReadUInt32Array scanner w2 bits_ptr_v 32 of
                           (None, w3) \<Rightarrow> (None, w3)
                         | (Some probe_array, w3) \<Rightarrow>
                             (let found = probe_actual_length probe_array (length probe_array);
                                  actual_length = (if found = 0 \<and> sign_v \<noteq> 0 then 1 else found)
                              in if \<not> IsValidBitsLength actual_length then (None, w3)
                                 else if actual_length > 0 then
                                   (case ReadUInt32Array scanner w3 bits_ptr_v (unat actual_length) of
                                      (None, w4) \<Rightarrow> (None, w4)
                                    | (Some bits, w4) \<Rightarrow>
                                        (Some \<lparr>DotNetBigIntegerData.sign = sign_v,
                                               bits_ptr = bits_ptr_v,
                                               bits_length = actual_length,
                                               bits_data = bits,
                                               is_valid = True\<rparr>, w4))
                                 else
                                   (Some \<lparr>DotNetBigIntegerData.sign = sign_v,
                                          bits_ptr = bits_ptr_v,
                                          bits_length = actual_length,
                                          bits_data = [],
                                          is_valid = True\<rparr>, w3))))))"

text \<open>
  \<open>DotNetBigIntegerReader::ReadBigIntegerVerbose\<close>: the same reads and checks in the
  same order; the log lines are not modelled.
\<close>

definition ReadBigIntegerVerbose ::
    "'w MemoryScanner option \<Rightarrow> 'w \<Rightarrow> MemoryAddress \<Rightarrow> DotNetBigIntegerData option \<times> 'w" where
  "ReadBigIntegerVerbose scanner_ptr w base_address =
     (case scanner_ptr of
        None \<Rightarrow> (None, w)
      | Some scanner \<Rightarrow>
          if \<not> IsValidPointer base_address then (None, w)
          else
            (case ReadInt32 scanner w base_address of
               (None, w1) \<Rightarrow> (None, w1)
             | (Some sign_v, w1) \<Rightarrow>
                 (case ReadUInt64 scanner w1 (base_address + 4) of
                    (None, w2) \<Rightarrow> (None, w2)
                  | (Some bits_ptr_v, w2) \<Rightarrow>
                      if \<not> IsValidPointer bits_ptr_v then (None, w2)
                      else
                        (case ReadUInt32Array scanner w2 bits_ptr_v 32 of
                           (None, w3) \<Rightarrow> (None, w3)
                         | (Some probe_array, w3) \<Rightarrow>
                             (let found = probe_actual_length probe_array (length probe_array);
                                  actual_length = (if found = 0 \<and> sign_v \<noteq> 0 then 1 else found)
                              in if \<not> IsValidBitsLength actual_length then (None, w3)
                                 else if actual_length > 0 then
                                   (case ReadUInt32Array scanner w3 bits_ptr_v (unat actual_length) of
                                      (None, w4) \<Rightarrow> (None, w4)
                                    | (Some bits, w4) \<Rightarrow>
                                        (Some \<lparr>DotNetBigIntegerData.sign = sign_v,
                                               bits_ptr = bits_ptr_v,
                                               bits_length = actual_length,
                                               bits_data = bits,
                                               is_valid = True\<rparr>, w4))
                                 else
                                   (Some \<lparr>DotNetBigIntegerData.sign = sign_v,
                                          bits_ptr = bits_ptr_v,
                                          bits_length = actual_length,
                                          bits_data = [],
                                          is_valid = True\<rparr>, w3))))))"

section \<open>The obscured-record reader\<close>

text \<open>
  \<open>ObscuredBigIntegerReader::ReadBigIntegerContents\<close>, a private member, reached only
  after the caller has checked that the scanner is not null. The class has its own
  \<open>IsValidPointer\<close> with the same two bounds as the one above.
\<close>

definition ReadBigIntegerContents ::
    "'w MemoryScanner \<Rightarrow> 'w \<Rightarrow> MemoryAddress \<Rightarrow> BigIntegerContents option \<times> 'w" where
  "ReadBigIntegerContents scanner w address =
     (case ReadInt32 scanner w address of
        (None, w1) \<Rightarrow> (None, w1)
      | (Some sign_v, w1) \<Rightarrow>
          (case ReadUInt64 scanner w1 (address + 4) of
             (None, w2) \<Rightarrow> (None, w2)
           | (Some bits_ptr_v, w2) \<Rightarrow>
               if bits_ptr_v = 0 then
                 (Some \<lparr>BigIntegerContents.sign = sign_v,
                        bits_ptr = bits_ptr_v,
                        bits_length = 0,
                        bits_data = []\<rparr>, w2)
               else if \<not> IsValidPointer bits_ptr_v then (None, w2)
               else
                 (case ReadUInt32Array scanner w2 bits_ptr_v 32 of
                    (None, w3) \<Rightarrow> (None, w3)
                  | (Some probe_array, w3) \<Rightarrow>
                      (let found = probe_actual_length probe_array (length probe_array);
                           actual_length = (if found = 0 \<and> sign_v \<noteq> 0 then 1 else found)
                       in if actual_length > 0 then
                            (case ReadUInt32Array scanner w3 bits_ptr_v (unat actual_length) of
                               (None, w4) \<Rightarrow> (None, w4)
                             | (Some bits, w4) \<Rightarrow>
                                 (Some \<lparr>BigIntegerContents.sign = sign_v,
                                        bits_ptr = bits_ptr_v,
                                        bits_length = actual_length,
                                        bits_data = bits\<rparr>, w4))
                          else
                            (Some \<lparr>BigIntegerContents.sign = sign_v,
                                   bits_ptr = bits_ptr_v,
                                   bits_length = actual_length,
                                   bits_data = []\<rparr>, w3)))))"

text \<open>
  \<open>ObscuredBigIntegerReader::ReadSerializableBigInteger\<close>. The local \<open>result\<close> is
  default-initialised: the scalar members of its \<open>bigint_value\<close> hold indeterminate
  values, taken here from the parameter \<open>junk\<close>, its vector is empty and its
  \<open>is_valid\<close> is false. The big-integer reader was constructed from the same scanner.
\<close>

definition ReadSerializableBigInteger ::
    "'w MemoryScanner \<Rightarrow> DotNetBigIntegerData \<Rightarrow> 'w \<Rightarrow> MemoryAddress
       \<Rightarrow> SerializableBigInteger option \<times> 'w" where
  "ReadSerializableBigInteger scanner junk w address =
     (case ReadBigIntegerVerbose (Some scanner) w address of
        (bigint_data, w1) \<Rightarrow>
          (let bigint_v =
                 (case bigint_data of
                    Some b \<Rightarrow> b
                  | None \<Rightarrow> junk\<lparr>DotNetBigIntegerData.bits_data := [],
                                  DotNetBigIntegerData.is_valid := False\<rparr>)
           in case ReadBigIntegerContents scanner w1 address of
                (Some raw, w2) \<Rightarrow>
                  (Some \<lparr>bigint_value = bigint_v, raw_contents = raw, is_valid = True\<rparr>, w2)
              | (None, w2) \<Rightarrow> (None, w2)))"

text \<open>
  \<open>ObscuredBigIntegerReader::ReadObscuredBigInteger\<close>. The stride
  \<open>sizeof(SerializableBigInteger)\<close> is fixed by the compiler and is a parameter here;
  \<open>sizeof(uint32_t)\<close> is 4 and \<open>sizeof(bool)\<close> is 1.
\<close>

definition ReadObscuredBigInteger ::
    "'w MemoryScanner option \<Rightarrow> MemoryAddress \<Rightarrow> DotNetBigIntegerData \<Rightarrow> DotNetBigIntegerData
       \<Rightarrow> 'w \<Rightarrow> MemoryAddress \<Rightarrow> ObscuredBigIntegerData option \<times> 'w" where
  "ReadObscuredBigInteger scanner_ptr sizeof_SerializableBigInteger junk_hidden junk_fake
       w base_address =
     (case scanner_ptr of
        None \<Rightarrow> (None, w)
      | Some scanner \<Rightarrow>
          if \<not> IsValidPointer base_address then (None, w)
          else
            (case ReadSerializableBigInteger scanner junk_hidden w base_address of
               (None, w1) \<Rightarrow> (None, w1)
             | (Some hidden, w1) \<Rightarrow>
                 (case ReadSerializableBigInteger scanner junk_fake w1
                         (base_address + sizeof_SerializableBigInteger) of
                    (None, w2) \<Rightarrow> (None, w2)
                  | (Some fake, w2) \<Rightarrow>
                      (case ReadUInt32 scanner w2
                              (base_address + sizeof_SerializableBigInteger
                                 + sizeof_SerializableBigInteger) of
                         (None, w3) \<Rightarrow> (None, w3)
                       | (Some crypto_key, w3) \<Rightarrow>
                           (case ReadBool scanner w3
                                   (base_address + sizeof_SerializableBigInteger
                                      + sizeof_SerializableBigInteger + 4) of
                              (None, w4) \<Rightarrow> (None, w4)
                            | (Some fake_active, w4) \<Rightarrow>
                                (case ReadBool scanner w4
                                        (base_address + sizeof_SerializableBigInteger
                                           + sizeof_SerializableBigInteger + 4 + 1) of
                                   (None, w5) \<Rightarrow> (None, w5)
                                 | (Some inited_v, w5) \<Rightarrow>
                                     (Some \<lparr>hidden_value = hidden,
                                            fake_value = fake,
                                            current_crypto_key = crypto_key,
                                            fake_value_active = fake_active,
                                            inited = inited_v,
                                            is_valid = True\<rparr>, w5)))))))"

section \<open>The byte pattern matcher\<close>

text \<open>\<open>struct MemoryRegion\<close> (common.hpp); its \<open>size\<close> member is \<open>size_bytes\<close> here.\<close>

record MemoryRegion =
  base_address :: MemoryAddress
  size_bytes :: nat
  protection :: u32
  name :: string

definition SCAN_ALIGNMENT :: nat where
  "SCAN_ALIGNMENT = 4"

text \<open>
  Indexing a \<open>std::vector\<close> past its end is undefined behaviour; the model makes every
  such access the result \<open>OutOfBounds\<close>.
\<close>

datatype scan_error = OutOfBounds

text \<open>
  The inner loop of \<open>MemoryScanner::ScanRegionForPattern\<close> at candidate offset \<open>i\<close>:
  \<open>j\<close> is the loop variable and \<open>n\<close> the number of pattern bytes still to compare.
  The result is the value of \<open>match\<close> after the loop. The index \<open>i + j\<close> is computed
  in \<open>size_t\<close>.
\<close>

fun match_loop ::
    "ByteVector \<Rightarrow> ByteVector \<Rightarrow> ByteVector \<Rightarrow> nat \<Rightarrow> nat \<Rightarrow> nat \<Rightarrow> scan_error + bool" where
  "match_loop region_data pattern mask_v i j 0 = Inr True"
| "match_loop region_data pattern mask_v i j (Suc n) =
     (if mask_v \<noteq> [] \<and> \<not> j < length mask_v then Inl OutOfBounds
      else if mask_v \<noteq> [] \<and> mask_v ! j = 0 then match_loop region_data pattern mask_v i (Suc j) n
      else if \<not> (i + j) mod 2 ^ 64 < length region_data then Inl OutOfBounds
      else if region_data ! ((i + j) mod 2 ^ 64) \<noteq> pattern ! j then Inr False
      else match_loop region_data pattern mask_v i (Suc j) n)"

text \<open>
  The outer loop, \<open>for (size_t i = 0; i <= bound; i += SCAN_ALIGNMENT)\<close>, where
  \<open>bound\<close> is \<open>region_data.size() - pattern.size()\<close>. The increment wraps at
  \<open>2 ^ 64\<close>, so the loop need not end: \<open>None\<close> is the loop that runs forever.
\<close>

partial_function (option) scan_loop ::
    "ByteVector \<Rightarrow> ByteVector \<Rightarrow> ByteVector \<Rightarrow> MemoryAddress \<Rightarrow> nat \<Rightarrow> nat
       \<Rightarrow> MemoryAddress list \<Rightarrow> (scan_error + MemoryAddress list) option" where
  "scan_loop region_data pattern mask_v base bound i results =
     (if i \<le> bound then
        (case match_loop region_data pattern mask_v i 0 (length pattern) of
           Inl e \<Rightarrow> Some (Inl e)
         | Inr match \<Rightarrow>
             scan_loop region_data pattern mask_v base bound ((i + SCAN_ALIGNMENT) mod 2 ^ 64)
               (if match then results @ [base + of_nat i] else results))
      else Some (Inr results))"

text \<open>
  \<open>MemoryScanner::ScanRegionForPattern\<close>. The loop bound is the unsigned difference of
  the two sizes, which wraps when the pattern is longer than the region data.
\<close>

definition ScanRegionForPattern ::
    "'w MemoryScanner \<Rightarrow> 'w \<Rightarrow> MemoryRegion \<Rightarrow> ByteVector \<Rightarrow> ByteVector
       \<Rightarrow> (scan_error + MemoryAddress list) option \<times> 'w" where
  "ScanRegionForPattern scanner w region pattern mask_v =
     (if pattern = [] then (Some (Inr []), w)
      else
        (case ReadBytes scanner w (base_address region) (size_bytes region) of
           (region_data, w') \<Rightarrow>
             if region_data = [] then (Some (Inr []), w')
             else
               (scan_loop region_data pattern mask_v (base_address region)
                  (nat ((int (length region_data) - int (length pattern)) mod 2 ^ 64)) 0 [],
                w')))"

section \<open>Example targets\<close>

text \<open>
  Concrete targets for the closed evaluations below. The memory of the target is a
  function from addresses to bytes; the state counts the reads that still succeed before
  the target exits, after which every read fails.
\<close>

definition example_process :: "(MemoryAddress \<Rightarrow> byte) \<Rightarrow> nat ReadProcessMemory" where
  "example_process memory w address sz =
     (if w = 0 then (None, 0)
      else (Some (map (\<lambda>k. memory (address + of_nat k)) [0..<sz]), w - 1))"

definition example_scanner :: "(MemoryAddress \<Rightarrow> byte) \<Rightarrow> nat MemoryScanner" where
  "example_scanner memory =
     \<lparr>process_mgr = \<lparr>process_handle = Some (example_process memory)\<rparr>\<rparr>"

text \<open>A target whose memory is all zero.\<close>

definition zero_memory :: "MemoryAddress \<Rightarrow> byte" where
  "zero_memory address = 0"

text \<open>
  A structure at \<open>0x10000\<close> with sign word 1 and magnitude pointer \<open>0x20000\<close>;
  every other byte, the magnitude array included, is zero.
\<close>

definition one_limb_memory :: "MemoryAddress \<Rightarrow> byte" where
  "one_limb_memory address =
     (if address = 0x10000 then 1 else if address = 0x10006 then 2 else 0)"

text \<open>Indeterminate scalars of a default-initialised \<open>DotNetBigIntegerData\<close>.\<close>

definition example_junk :: DotNetBigIntegerData where
  "example_junk = \<lparr>DotNetBigIntegerData.sign = 0xCCCCCCCC, bits_ptr = 0xCCCCCCCCCCCCCCCC,
       bits_length = 0xCCCCCCCC, bits_data = [], is_valid = False\<rparr>"

text \<open>
  A valid record whose hidden value reads as \<open>+5\<close> in both views, with key \<open>0xFF\<close>.
\<close>

definition example_obscured :: ObscuredBigIntegerData where
  "example_obscured =
     \<lparr>hidden_value =
        \<lparr>bigint_value = \<lparr>DotNetBigIntegerData.sign = 1, bits_ptr = 0x20000, bits_length = 1,
                          bits_data = [5], is_valid = True\<rparr>,
         raw_contents = \<lparr>BigIntegerContents.sign = 1, bits_ptr = 0x20000, bits_length = 1,
                          bits_data = [5]\<rparr>,
         is_valid = True\<rparr>,
      fake_value =
        \<lparr>bigint_value = \<lparr>DotNetBigIntegerData.sign = 1, bits_ptr = 0x30000, bits_length = 1,
                          bits_data = [7], is_valid = True\<rparr>,
         raw_contents = \<lparr>BigIntegerContents.sign = 1, bits_ptr = 0x30000, bits_length = 1,
                          bits_data = [7]\<rparr>,
         is_valid = True\<rparr>,
      current_crypto_key = 0xFF,
      fake_value_active = False,
      inited = True,
      is_valid = True\<rparr>"

text \<open>
  A target with the bytes \<open>DE AD BE EF\<close> at \<open>0x10040\<close> and zeros everywhere else.
\<close>

definition deadbeef_memory :: "MemoryAddress \<Rightarrow> byte" where
  "deadbeef_memory address =
     (if address = 0x10040 then 0xDE
      else if address = 0x10041 then 0xAD
      else if address = 0x10042 then 0xBE
      else if address = 0x10043 then 0xEF
      else 0)"

section \<open>Properties of the shuffle cipher\<close>

lemma xor_key_twice: "(a XOR k) XOR k = (a::u32)"
  by (simp add: xor.assoc)

lemma swap_xor_twice:
  fixes xs :: "u32 list"
  assumes "1 < length xs"
  shows "(((xs[0 := xs ! (length xs - 1) XOR k])[length xs - 1 := xs ! 0 XOR k])
            [0 := (xs ! 0 XOR k) XOR k])[length xs - 1 := (xs ! (length xs - 1) XOR k) XOR k] = xs"
    (is "?ys = xs")
proof (rule nth_equalityI)
  show "length ?ys = length xs"
    by simp
next
  fix i
  assume "i < length ?ys"
  then have i: "i < length xs" by simp
  from assms have pos: "0 < length xs" and neq: "length xs - 1 \<noteq> 0" by auto
  consider "i = 0" | "i = length xs - 1" | "i \<noteq> 0" "i \<noteq> length xs - 1" by blast
  then show "?ys ! i = xs ! i"
  proof cases
    case 1
    with assms pos neq show ?thesis by (simp add: xor_key_twice nth_list_update)
  next
    case 2
    with assms pos neq show ?thesis by (simp add: xor_key_twice nth_list_update)
  next
    case 3
    with i show ?thesis by (simp add: nth_list_update)
  qed
qed

text \<open>
  C1. Decrypting twice with the same key gives back the tuple one started from: the same
  sign, the same pointer and length fields and the same limb sequence, for every tuple
  (any sign pattern, any number of limbs) and every key.
\<close>

theorem DecryptBigIntegerContents_involution:
  "DecryptBigIntegerContents (DecryptBigIntegerContents t k) k = t"
proof (cases "length (BigIntegerContents.bits_data t) \<le> 1")
  case True
  then consider "BigIntegerContents.bits_data t = []" | x where "BigIntegerContents.bits_data t = [x]"
    by (cases "BigIntegerContents.bits_data t") (auto simp: length_Suc_conv)
  then show ?thesis
    by cases (simp_all add: DecryptBigIntegerContents_def Let_def xor_key_twice)
next
  case False
  then have len: "1 < length (BigIntegerContents.bits_data t)" by simp
  then have ne: "BigIntegerContents.bits_data t \<noteq> []" by auto
  from len ne swap_xor_twice [OF len, of k] show ?thesis
    by (simp add: DecryptBigIntegerContents_def Let_def xor_key_twice)
qed

text \<open>
  C3. The case analysis of the cipher: the sign is XOR-ed with the key; the number of
  limbs does not change; no limbs stay no limbs; one limb is XOR-ed with the key; with
  more than one limb the first output limb is the last input limb XOR key, the last
  output limb is the first input limb XOR key, and every limb in between is unchanged.
  Limbs \<open>[1, 2, 3]\<close> with key \<open>0xFF\<close> decrypt to \<open>[0xFC, 0x02, 0xFE]\<close>.
\<close>

theorem DecryptBigIntegerContents_cases:
  "BigIntegerContents.sign (DecryptBigIntegerContents t k) = BigIntegerContents.sign t XOR k
   \<and> length (BigIntegerContents.bits_data (DecryptBigIntegerContents t k))
       = length (BigIntegerContents.bits_data t)
   \<and> (BigIntegerContents.bits_data t = [] \<longrightarrow>
        BigIntegerContents.bits_data (DecryptBigIntegerContents t k) = [])
   \<and> (\<forall>x. BigIntegerContents.bits_data t = [x] \<longrightarrow>
        BigIntegerContents.bits_data (DecryptBigIntegerContents t k) = [x XOR k])
   \<and> (1 < length (BigIntegerContents.bits_data t) \<longrightarrow>
        BigIntegerContents.bits_data (DecryptBigIntegerContents t k) ! 0
          = BigIntegerContents.bits_data t ! (length (BigIntegerContents.bits_data t) - 1) XOR k
      \<and> BigIntegerContents.bits_data (DecryptBigIntegerContents t k)
            ! (length (BigIntegerContents.bits_data t) - 1)
          = BigIntegerContents.bits_data t ! 0 XOR k
      \<and> (\<forall>i. 0 < i \<and> i < length (BigIntegerContents.bits_data t) - 1 \<longrightarrow>
            BigIntegerContents.bits_data (DecryptBigIntegerContents t k) ! i
              = BigIntegerContents.bits_data t ! i))
   \<and> BigIntegerContents.bits_data
        (DecryptBigIntegerContents (t\<lparr>BigIntegerContents.bits_data := [1, 2, 3]\<rparr>) 0xFF)
       = [0xFC, 0x02, 0xFE]"
proof -
  let ?d = "BigIntegerContents.bits_data t"
  have sgn: "BigIntegerContents.sign (DecryptBigIntegerContents t k) = BigIntegerContents.sign t XOR k"
    by (simp add: DecryptBigIntegerContents_def Let_def)
  have len: "length (BigIntegerContents.bits_data (DecryptBigIntegerContents t k)) = length ?d"
    by (simp add: DecryptBigIntegerContents_def Let_def)
  have empty: "?d = [] \<longrightarrow> BigIntegerContents.bits_data (DecryptBigIntegerContents t k) = []"
    by (simp add: DecryptBigIntegerContents_def Let_def)
  have single: "\<forall>x. ?d = [x] \<longrightarrow>
      BigIntegerContents.bits_data (DecryptBigIntegerContents t k) = [x XOR k]"
    by (simp add: DecryptBigIntegerContents_def Let_def)
  have many: "1 < length ?d \<longrightarrow>
        BigIntegerContents.bits_data (DecryptBigIntegerContents t k) ! 0
          = ?d ! (length ?d - 1) XOR k
      \<and> BigIntegerContents.bits_data (DecryptBigIntegerContents t k) ! (length ?d - 1)
          = ?d ! 0 XOR k
      \<and> (\<forall>i. 0 < i \<and> i < length ?d - 1 \<longrightarrow>
            BigIntegerContents.bits_data (DecryptBigIntegerContents t k) ! i = ?d ! i)"
  proof
    assume l: "1 < length ?d"
    then have ne: "?d \<noteq> []" and n1: "length ?d \<noteq> 1" and pos: "0 < length ?d"
      and neq: "length ?d - 1 \<noteq> 0" by auto
    have eq: "BigIntegerContents.bits_data (DecryptBigIntegerContents t k)
        = (?d[0 := ?d ! (length ?d - 1) XOR k])[length ?d - 1 := ?d ! 0 XOR k]"
      using l ne n1 by (simp add: DecryptBigIntegerContents_def Let_def)
    show "BigIntegerContents.bits_data (DecryptBigIntegerContents t k) ! 0
          = ?d ! (length ?d - 1) XOR k
      \<and> BigIntegerContents.bits_data (DecryptBigIntegerContents t k) ! (length ?d - 1)
          = ?d ! 0 XOR k
      \<and> (\<forall>i. 0 < i \<and> i < length ?d - 1 \<longrightarrow>
            BigIntegerContents.bits_data (DecryptBigIntegerContents t k) ! i = ?d ! i)"
      unfolding eq using pos neq l by (simp add: nth_list_update)
  qed
  have scenario: "BigIntegerContents.bits_data
        (DecryptBigIntegerContents (t\<lparr>BigIntegerContents.bits_data := [1, 2, 3]\<rparr>) 0xFF)
       = [0xFC, 0x02, 0xFE]"
    by (simp add: DecryptBigIntegerContents_def Let_def)
  from sgn len empty single many scenario show ?thesis by blast
qed

theorem DecryptBigIntegerContents_cases_witness:
  "BigIntegerContents.bits_data
     \<lparr>BigIntegerContents.sign = 0x12345678, bits_ptr = 0, bits_length = 0, bits_data = []\<rparr> = []
   \<and> DecryptBigIntegerContents
       \<lparr>BigIntegerContents.sign = 0x12345678, bits_ptr = 0, bits_length = 0, bits_data = []\<rparr>
       0x12345678
     = \<lparr>BigIntegerContents.sign = 0, bits_ptr = 0, bits_length = 0, bits_data = []\<rparr>
   \<and> BigIntegerContents.bits_data
       (DecryptBigIntegerContents
          \<lparr>BigIntegerContents.sign = 1, bits_ptr = 0x20000, bits_length = 1,
            bits_data = [0xAAAAAAAA]\<rparr> 0x55555555) = [0xFFFFFFFF]
   \<and> 1 < length [7, 8, 9, 10 :: u32]
   \<and> BigIntegerContents.bits_data
       (DecryptBigIntegerContents
          \<lparr>BigIntegerContents.sign = 1, bits_ptr = 0x20000, bits_length = 4,
            bits_data = [7, 8, 9, 10]\<rparr> 0xFF) = [0xF5, 8, 9, 0xF8]"
  using
    DecryptBigIntegerContents_cases
      [of "\<lparr>BigIntegerContents.sign = 0x12345678, bits_ptr = 0, bits_length = 0, bits_data = []\<rparr>"
          "0x12345678"]
    DecryptBigIntegerContents_cases
      [of "\<lparr>BigIntegerContents.sign = 1, bits_ptr = 0x20000, bits_length = 1,
            bits_data = [0xAAAAAAAA]\<rparr>" "0x55555555"]
    DecryptBigIntegerContents_cases
      [of "\<lparr>BigIntegerContents.sign = 1, bits_ptr = 0x20000, bits_length = 4,
            bits_data = [7, 8, 9, 10]\<rparr>" "0xFF"]
  by (simp add: DecryptBigIntegerContents_def Let_def)

text \<open>
  C2. What \<open>DecryptHiddenValue\<close> returns: for a valid record it is always the
  \<open>bigint_value\<close> that was read, whatever the key and the raw contents are, and it
  never fails. On the example record the decrypted raw tuple has sign \<open>0xFE\<close> and limb
  \<open>0xFA\<close>, yet the value returned is the undecrypted \<open>+5\<close>.
\<close>

theorem DecryptHiddenValue_returns_undecrypted_view:
  "DecryptHiddenValue obscured =
     (if ObscuredBigIntegerData.is_valid obscured
      then Some (bigint_value (hidden_value obscured)) else None)
   \<and> DecryptBigIntegerContents (raw_contents (hidden_value example_obscured))
        (current_crypto_key example_obscured)
      = \<lparr>BigIntegerContents.sign = 0xFE, bits_ptr = 0x20000, bits_length = 1, bits_data = [0xFA]\<rparr>
   \<and> DecryptHiddenValue example_obscured =
       Some \<lparr>DotNetBigIntegerData.sign = 1, bits_ptr = 0x20000, bits_length = 1,
             bits_data = [5], is_valid = True\<rparr>"
  by (simp add: DecryptHiddenValue_def DecryptSerializableBigInteger_def
      DecryptBigIntegerContents_def example_obscured_def Let_def)

section \<open>Evaluating reads on the example targets\<close>

lemma upt4: "[0..<4] = [0,1,2,3]" and upt8: "[0..<8] = [0,1,2,3,4,5,6,7]" and upt1: "[0..<1] = [0]"
  by (simp_all add: upt_rec)

lemma ex_ReadMemory:
  "0 < w \<Longrightarrow> 0 < n \<Longrightarrow> n \<le> MAX_READ_SIZE \<Longrightarrow>
   ReadMemory (process_mgr (example_scanner m)) w a n
     = (Some (map (\<lambda>k. m (a + of_nat k)) [0..<n]), w - 1)"
  by (simp add: ReadMemory_def example_scanner_def example_process_def)

lemma ex_ReadMemory0:
  "ReadMemory (process_mgr (example_scanner m)) 0 a n = (None, 0)"
  by (simp add: ReadMemory_def example_scanner_def example_process_def)

lemma ex_ReadUInt32:
  "0 < w \<Longrightarrow> ReadUInt32 (example_scanner m) w a = (Some (from_le32 [m a, m (a + 1), m (a + 2), m (a + 3)]), w - 1)"
  by (simp add: ReadUInt32_def ReadValue_def ex_ReadMemory MAX_READ_SIZE_def upt4)

lemma ex_ReadInt32:
  "0 < w \<Longrightarrow> ReadInt32 (example_scanner m) w a = (Some (from_le32 [m a, m (a + 1), m (a + 2), m (a + 3)]), w - 1)"
  by (simp add: ReadInt32_def ReadValue_def ex_ReadMemory MAX_READ_SIZE_def upt4)

lemma ex_ReadUInt64:
  "0 < w \<Longrightarrow> ReadUInt64 (example_scanner m) w a = (Some (from_le64 [m a, m (a + 1), m (a + 2), m (a + 3), m (a + 4), m (a + 5), m (a + 6), m (a + 7)]), w - 1)"
  by (simp add: ReadUInt64_def ReadValue_def ex_ReadMemory MAX_READ_SIZE_def upt8)

lemma le32_0: "from_le32 [0,0,0,0] = 0" and le32_1: "from_le32 [1,0,0,0] = 1"
  and le64_0: "from_le64 [0,0,0,0,0,0,0,0] = 0"
  and le64_2: "from_le64 [0,0,2,0,0,0,0,0] = 0x20000"
  by (simp_all add: from_le32_def from_le64_def word_rcat_def)


lemma ex_ReadUInt32Array_loop:
  "n \<le> w \<Longrightarrow>
   ReadUInt32Array_loop (example_scanner m) a w i n acc
     = (Some (acc @ map (\<lambda>k. from_le32 [m (a + of_nat k * 4), m (a + of_nat k * 4 + 1),
                                         m (a + of_nat k * 4 + 2), m (a + of_nat k * 4 + 3)])
                       [i..<i + n]), w - n)"
proof (induction n arbitrary: w i acc)
  case 0
  then show ?case by simp
next
  case (Suc n)
  then have w: "0 < w" and le: "n \<le> w - 1" by simp_all
  show ?case
    using Suc.IH [OF le, of "Suc i"] w
    by (simp add: ex_ReadUInt32 upt_rec [of i])
qed

lemma ex_ReadUInt32Array:
  "n \<le> w \<Longrightarrow>
   ReadUInt32Array (example_scanner m) w a n
     = (Some (map (\<lambda>k. from_le32 [m (a + of_nat k * 4), m (a + of_nat k * 4 + 1),
                                   m (a + of_nat k * 4 + 2), m (a + of_nat k * 4 + 3)])
                  [0..<n]), w - n)"
  using ex_ReadUInt32Array_loop [of n w m a 0 "[]"]
  by (simp add: ReadUInt32Array_def)

lemma ReadUInt32Array_loop_length:
  "ReadUInt32Array_loop scanner a w i n acc = (Some xs, w') \<Longrightarrow> length xs = length acc + n"
proof (induction n arbitrary: w i acc)
  case 0
  then show ?case by simp
next
  case (Suc n)
  then show ?case
    by (auto split: prod.splits option.splits)
qed

lemma ReadUInt32Array_length:
  "ReadUInt32Array scanner w a n = (Some xs, w') \<Longrightarrow> length xs = n"
  using ReadUInt32Array_loop_length [of scanner a w 0 n "[]" xs w']
  by (auto simp: ReadUInt32Array_def split: if_splits)

lemma probe_actual_length_zeros:
  "n \<le> length xs \<Longrightarrow> \<forall>limb \<in> set xs. limb = 0 \<Longrightarrow> probe_actual_length xs n = 0"
  by (induction n) auto

lemma upt32: "[0..<32] = [0,1,2,3,4,5,6,7,8,9,10,11,12,13,14,15,16,17,18,19,20,21,22,23,24,25,26,27,28,29,30,31]"
  by (simp add: upt_rec)

lemma ex_ReadBool:
  "0 < w \<Longrightarrow> ReadBool (example_scanner m) w a = (Some (m a \<noteq> 0), w - 1)"
  by (simp add: ReadBool_def ReadValue_def ex_ReadMemory MAX_READ_SIZE_def upt1 from_bool_def)

lemma ex_ReadInt32_dead: "ReadInt32 (example_scanner m) 0 a = (None, 0)"
  by (simp add: ReadInt32_def ReadValue_def ex_ReadMemory0)

lemma ex_ReadBool_dead: "ReadBool (example_scanner m) 0 a = (None, 0)"
  by (simp add: ReadBool_def ReadValue_def ex_ReadMemory0)

lemma one_limb_probe:
  "32 \<le> w \<Longrightarrow>
   ReadUInt32Array (example_scanner one_limb_memory) w 0x20000 32 = (Some (replicate 32 0), w - 32)"
proof -
  have r: "replicate 32 (0::u32) = [0,0,0,0,0,0,0,0,0,0,0,0,0,0,0,0,0,0,0,0,0,0,0,0,0,0,0,0,0,0,0,0]"
    by (simp add: numeral_eq_Suc)
  assume "32 \<le> w"
  then show ?thesis
    unfolding r
    by (simp add: ex_ReadUInt32Array one_limb_memory_def le32_0 upt32)
qed

lemma one_limb_reread:
  "1 \<le> w \<Longrightarrow>
   ReadUInt32Array (example_scanner one_limb_memory) w 0x20000 1 = (Some [0], w - 1)"
  by (simp add: ex_ReadUInt32Array one_limb_memory_def le32_0 upt1)

lemma one_limb_sign:
  "0 < w \<Longrightarrow> ReadInt32 (example_scanner one_limb_memory) w 0x10000 = (Some 1, w - 1)"
  by (simp add: ex_ReadInt32 one_limb_memory_def le32_1)

lemma one_limb_pointer:
  "0 < w \<Longrightarrow>
   ReadUInt64 (example_scanner one_limb_memory) w 0x10004 = (Some 0x20000, w - 1)"
  by (simp add: ex_ReadUInt64 one_limb_memory_def le64_2)

lemma valid_pointers: "IsValidPointer 0x10000" "IsValidPointer 0x20000"
  by (simp_all add: IsValidPointer_def MIN_VALID_POINTER_def MAX_VALID_POINTER_def)

section \<open>Properties of the big-integer structure reader\<close>

lemma ReadBigIntegerVerbose_eq: "ReadBigIntegerVerbose = ReadBigInteger"
  by (intro ext) (simp add: ReadBigIntegerVerbose_def ReadBigInteger_def)

text \<open>
  C4. A structure whose sign word reads 0 and whose magnitude pointer reads null:
  \<open>ReadBigInteger\<close> fails on it, because the null pointer is below
  \<open>MIN_VALID_POINTER\<close>, while \<open>ReadBigIntegerContents\<close> returns sign 0 and no limbs.
\<close>

theorem ReadBigInteger_rejects_null_pointer:
  "ReadInt32 (example_scanner zero_memory) 100 0x10000 = (Some 0, 99)
   \<and> ReadUInt64 (example_scanner zero_memory) 99 (0x10000 + 4) = (Some 0, 98)
   \<and> ReadBigInteger (Some (example_scanner zero_memory)) 100 0x10000 = (None, 98)
   \<and> ReadBigIntegerContents (example_scanner zero_memory) 100 0x10000 =
       (Some \<lparr>BigIntegerContents.sign = 0, bits_ptr = 0, bits_length = 0, bits_data = []\<rparr>, 98)"
  by (simp add: ReadBigInteger_def ReadBigIntegerContents_def IsValidPointer_def
      MIN_VALID_POINTER_def MAX_VALID_POINTER_def
      ex_ReadInt32 ex_ReadUInt64 zero_memory_def le32_0 le64_0)

lemma clamp_ReadBigInteger:
  assumes "IsValidPointer base"
      and "ReadInt32 scanner w base = (Some sign_v, w1)"
      and "sign_v \<noteq> 0"
      and "ReadUInt64 scanner w1 (base + 4) = (Some bits_ptr_v, w2)"
      and "IsValidPointer bits_ptr_v"
      and "ReadUInt32Array scanner w2 bits_ptr_v 32 = (Some probe_array, w3)"
      and "\<forall>limb \<in> set probe_array. limb = 0"
      and "ReadUInt32Array scanner w3 bits_ptr_v 1 = (reread, w4)"
  shows "ReadBigInteger (Some scanner) w base =
           (case reread of
              None \<Rightarrow> None
            | Some bits \<Rightarrow>
                Some \<lparr>DotNetBigIntegerData.sign = sign_v, bits_ptr = bits_ptr_v,
                      bits_length = 1, bits_data = bits, is_valid = True\<rparr>, w4)"
proof -
  have "probe_actual_length probe_array (length probe_array) = 0"
    using assms(7) by (simp add: probe_actual_length_zeros)
  then show ?thesis
    using assms
    by (simp add: ReadBigInteger_def IsValidBitsLength_def MAX_REASONABLE_BITS_LENGTH_def
        split: option.splits)
qed

lemma clamp_ReadBigIntegerContents:
  assumes "ReadInt32 scanner w base = (Some sign_v, w1)"
      and "sign_v \<noteq> 0"
      and "ReadUInt64 scanner w1 (base + 4) = (Some bits_ptr_v, w2)"
      and "IsValidPointer bits_ptr_v"
      and "ReadUInt32Array scanner w2 bits_ptr_v 32 = (Some probe_array, w3)"
      and "\<forall>limb \<in> set probe_array. limb = 0"
      and "ReadUInt32Array scanner w3 bits_ptr_v 1 = (reread, w4)"
  shows "ReadBigIntegerContents scanner w base =
           (case reread of
              None \<Rightarrow> None
            | Some bits \<Rightarrow>
                Some \<lparr>BigIntegerContents.sign = sign_v, bits_ptr = bits_ptr_v,
                      bits_length = 1, bits_data = bits\<rparr>, w4)"
proof -
  have "probe_actual_length probe_array (length probe_array) = 0"
    using assms(6) by (simp add: probe_actual_length_zeros)
  moreover have "bits_ptr_v \<noteq> 0"
    using assms(4) by (auto simp: IsValidPointer_def MIN_VALID_POINTER_def)
  ultimately show ?thesis
    using assms
    by (simp add: ReadBigIntegerContents_def split: option.splits)
qed

text \<open>
  C7. The length clamp. When the sign word is not zero, the magnitude pointer is valid and
  all 32 limbs of the probe window read as zero, the recovered length is 1 and exactly one
  limb is read again: both readers return a value with \<open>bits_length = 1\<close> that carries
  the limb read, or fail when that second read fails; any limb list read has length 1.
\<close>

theorem length_clamp:
  assumes "IsValidPointer base"
      and "ReadInt32 scanner w base = (Some sign_v, w1)"
      and "sign_v \<noteq> 0"
      and "ReadUInt64 scanner w1 (base + 4) = (Some bits_ptr_v, w2)"
      and "IsValidPointer bits_ptr_v"
      and "ReadUInt32Array scanner w2 bits_ptr_v 32 = (Some probe_array, w3)"
      and "\<forall>limb \<in> set probe_array. limb = 0"
      and "ReadUInt32Array scanner w3 bits_ptr_v 1 = (reread, w4)"
  shows "ReadBigInteger (Some scanner) w base =
           (case reread of
              None \<Rightarrow> None
            | Some bits \<Rightarrow>
                Some \<lparr>DotNetBigIntegerData.sign = sign_v, bits_ptr = bits_ptr_v,
                      bits_length = 1, bits_data = bits, is_valid = True\<rparr>, w4)
       \<and> ReadBigIntegerContents scanner w base =
           (case reread of
              None \<Rightarrow> None
            | Some bits \<Rightarrow>
                Some \<lparr>BigIntegerContents.sign = sign_v, bits_ptr = bits_ptr_v,
                      bits_length = 1, bits_data = bits\<rparr>, w4)
       \<and> (\<forall>bits. reread = Some bits \<longrightarrow> length bits = 1)"
  using clamp_ReadBigInteger [OF assms] clamp_ReadBigIntegerContents [OF assms(2-8)]
    ReadUInt32Array_length [of scanner w3 bits_ptr_v 1 _ w4] assms(8)
  by simp

theorem length_clamp_witness:
  "ReadBigInteger (Some (example_scanner one_limb_memory)) 100 0x10000 =
     (Some \<lparr>DotNetBigIntegerData.sign = 1, bits_ptr = 0x20000,
            bits_length = 1, bits_data = [0], is_valid = True\<rparr>, 65)
   \<and> ReadBigIntegerContents (example_scanner one_limb_memory) 100 0x10000 =
     (Some \<lparr>BigIntegerContents.sign = 1, bits_ptr = 0x20000,
            bits_length = 1, bits_data = [0]\<rparr>, 65)"
proof -
  have h2: "ReadInt32 (example_scanner one_limb_memory) 100 0x10000 = (Some 1, 99)"
    by (simp add: one_limb_sign)
  have h3: "(1::u32) \<noteq> 0" by simp
  have h4: "ReadUInt64 (example_scanner one_limb_memory) 99 (0x10000 + 4) = (Some 0x20000, 98)"
    by (simp add: one_limb_pointer)
  have h6: "ReadUInt32Array (example_scanner one_limb_memory) 98 0x20000 32
      = (Some (replicate 32 0), 66)"
    by (simp add: one_limb_probe)
  have h7: "\<forall>limb \<in> set (replicate 32 (0::u32)). limb = 0" by simp
  have h8: "ReadUInt32Array (example_scanner one_limb_memory) 66 0x20000 1 = (Some [0], 65)"
    using one_limb_reread [of 66] by simp
  from length_clamp [OF valid_pointers(1) h2 h3 h4 valid_pointers(2) h6 h7 h8]
  show ?thesis by simp
qed

section \<open>Properties of the overlay reader\<close>

text \<open>
  C5, as the claim states it, fails: on the example target the validated view is read
  successfully with the 35 reads the target still answers, the raw view then fails at its
  first read, and the overlay reader returns nothing at all.
\<close>

theorem ReadSerializableBigInteger_raw_failure_discards_value:
  "ReadBigIntegerVerbose (Some (example_scanner one_limb_memory)) 35 0x10000 =
     (Some \<lparr>DotNetBigIntegerData.sign = 1, bits_ptr = 0x20000, bits_length = 1,
            bits_data = [0], is_valid = True\<rparr>, 0)
   \<and> ReadBigIntegerContents (example_scanner one_limb_memory) 0 0x10000 = (None, 0)
   \<and> ReadSerializableBigInteger (example_scanner one_limb_memory) example_junk 35 0x10000
       = (None, 0)"
proof -
  have h2: "ReadInt32 (example_scanner one_limb_memory) 35 0x10000 = (Some 1, 34)"
    by (simp add: one_limb_sign)
  have h4: "ReadUInt64 (example_scanner one_limb_memory) 34 (0x10000 + 4) = (Some 0x20000, 33)"
    by (simp add: one_limb_pointer)
  have h6: "ReadUInt32Array (example_scanner one_limb_memory) 33 0x20000 32
      = (Some (replicate 32 0), 1)"
    by (simp add: one_limb_probe)
  have h8: "ReadUInt32Array (example_scanner one_limb_memory) 1 0x20000 1 = (Some [0], 0)"
    using one_limb_reread [of 1] by simp
  have v: "ReadBigIntegerVerbose (Some (example_scanner one_limb_memory)) 35 0x10000 =
     (Some \<lparr>DotNetBigIntegerData.sign = 1, bits_ptr = 0x20000, bits_length = 1,
            bits_data = [0], is_valid = True\<rparr>, 0)"
    using clamp_ReadBigInteger [OF valid_pointers(1) h2 _ h4 valid_pointers(2) h6 _ h8]
    by (simp add: ReadBigIntegerVerbose_eq)
  have c: "ReadBigIntegerContents (example_scanner one_limb_memory) 0 0x10000 = (None, 0)"
    by (simp add: ReadBigIntegerContents_def ex_ReadInt32_dead)
  from v c show ?thesis
    by (simp add: ReadSerializableBigInteger_def)
qed

text \<open>
  C5, amended. Both views are attempted, the validated one first. When the raw view is
  read successfully the overlay reader returns a result that carries it, together with
  the validated view if that one was read successfully and with an invalid, limbless
  \<open>bigint_value\<close> otherwise: a failure of the validated view does not stop the raw
  view. When the raw view fails the overlay reader fails.
\<close>

theorem ReadSerializableBigInteger_views:
  assumes "ReadBigIntegerVerbose (Some scanner) w address = (bigint_data, w1)"
      and "ReadBigIntegerContents scanner w1 address = (raw, w2)"
  shows "(raw = None \<longrightarrow> ReadSerializableBigInteger scanner junk w address = (None, w2))
       \<and> (\<forall>rc. raw = Some rc \<longrightarrow>
            (\<exists>res. ReadSerializableBigInteger scanner junk w address = (Some res, w2)
                \<and> raw_contents res = rc
                \<and> SerializableBigInteger.is_valid res
                \<and> (bigint_data = None \<longrightarrow>
                      \<not> DotNetBigIntegerData.is_valid (bigint_value res)
                      \<and> DotNetBigIntegerData.bits_data (bigint_value res) = [])
                \<and> (\<forall>b. bigint_data = Some b \<longrightarrow> bigint_value res = b)))"
  using assms
  by (auto simp: ReadSerializableBigInteger_def split: option.splits)

theorem ReadSerializableBigInteger_views_witness:
  "ReadSerializableBigInteger (example_scanner zero_memory) example_junk 100 0x10000 =
     (Some \<lparr>bigint_value = example_junk,
            raw_contents = \<lparr>BigIntegerContents.sign = 0, bits_ptr = 0, bits_length = 0,
                             bits_data = []\<rparr>,
            is_valid = True\<rparr>, 96)
   \<and> ReadSerializableBigInteger (example_scanner one_limb_memory) example_junk 100 0x10000 =
     (Some \<lparr>bigint_value = \<lparr>DotNetBigIntegerData.sign = 1, bits_ptr = 0x20000,
                             bits_length = 1, bits_data = [0], is_valid = True\<rparr>,
            raw_contents = \<lparr>BigIntegerContents.sign = 1, bits_ptr = 0x20000,
                             bits_length = 1, bits_data = [0]\<rparr>,
            is_valid = True\<rparr>, 30)
   \<and> ReadSerializableBigInteger (example_scanner zero_memory) example_junk 0 0x10000 = (None, 0)"
proof -
  have a1: "ReadBigIntegerVerbose (Some (example_scanner zero_memory)) 100 0x10000 = (None, 98)"
    by (simp add: ReadBigIntegerVerbose_def IsValidPointer_def
      MIN_VALID_POINTER_def MAX_VALID_POINTER_def
      ex_ReadInt32 ex_ReadUInt64 zero_memory_def le32_0 le64_0)
  have a2: "ReadBigIntegerContents (example_scanner zero_memory) 98 0x10000 =
       (Some \<lparr>BigIntegerContents.sign = 0, bits_ptr = 0, bits_length = 0, bits_data = []\<rparr>, 96)"
    by (simp add: ReadBigIntegerContents_def
      ex_ReadInt32 ex_ReadUInt64 zero_memory_def le32_0 le64_0)
  have b1: "ReadBigIntegerVerbose (Some (example_scanner zero_memory)) 0 0x10000 = (None, 0)"
    by (simp add: ReadBigIntegerVerbose_def IsValidPointer_def
      MIN_VALID_POINTER_def MAX_VALID_POINTER_def ex_ReadInt32_dead)
  have b2: "ReadBigIntegerContents (example_scanner zero_memory) 0 0x10000 = (None, 0)"
    by (simp add: ReadBigIntegerContents_def ex_ReadInt32_dead)
  have h7: "\<forall>limb \<in> set (replicate 32 (0::u32)). limb = 0" by simp
  have h3: "(1::u32) \<noteq> 0" by simp
  have s1: "ReadInt32 (example_scanner one_limb_memory) 100 0x10000 = (Some 1, 99)"
    and s2: "ReadInt32 (example_scanner one_limb_memory) 65 0x10000 = (Some 1, 64)"
    by (simp_all add: one_limb_sign)
  have p1: "ReadUInt64 (example_scanner one_limb_memory) 99 (0x10000 + 4) = (Some 0x20000, 98)"
    and p2: "ReadUInt64 (example_scanner one_limb_memory) 64 (0x10000 + 4) = (Some 0x20000, 63)"
    by (simp_all add: one_limb_pointer)
  have q1: "ReadUInt32Array (example_scanner one_limb_memory) 98 0x20000 32
      = (Some (replicate 32 0), 66)"
    and q2: "ReadUInt32Array (example_scanner one_limb_memory) 63 0x20000 32
      = (Some (replicate 32 0), 31)"
    by (simp_all add: one_limb_probe)
  have r1: "ReadUInt32Array (example_scanner one_limb_memory) 66 0x20000 1 = (Some [0], 65)"
    and r2: "ReadUInt32Array (example_scanner one_limb_memory) 31 0x20000 1 = (Some [0], 30)"
    using one_limb_reread [of 66] one_limb_reread [of 31] by simp_all
  have c1: "ReadBigIntegerVerbose (Some (example_scanner one_limb_memory)) 100 0x10000 =
     (Some \<lparr>DotNetBigIntegerData.sign = 1, bits_ptr = 0x20000, bits_length = 1,
            bits_data = [0], is_valid = True\<rparr>, 65)"
    using clamp_ReadBigInteger [OF valid_pointers(1) s1 h3 p1 valid_pointers(2) q1 h7 r1]
    by (simp add: ReadBigIntegerVerbose_eq)
  have c2: "ReadBigIntegerContents (example_scanner one_limb_memory) 65 0x10000 =
     (Some \<lparr>BigIntegerContents.sign = 1, bits_ptr = 0x20000, bits_length = 1,
            bits_data = [0]\<rparr>, 30)"
    using clamp_ReadBigIntegerContents [OF s2 h3 p2 valid_pointers(2) q2 h7 r2]
    by simp
  from ReadSerializableBigInteger_views [OF a1 a2, of example_junk]
       ReadSerializableBigInteger_views [OF c1 c2, of example_junk]
       ReadSerializableBigInteger_views [OF b1 b2, of example_junk]
  show ?thesis
    by (auto simp: example_junk_def ReadSerializableBigInteger_def a1 a2)
qed

section \<open>Properties of the obscured-record reader\<close>

text \<open>
  C6. The record reader is all-or-nothing. Name the results of the five field reads, each
  made in the state its predecessor leaves: the hidden overlay value, the decoy overlay
  value, the key and the two flags. If any of them is a failure the reader returns
  failure; and whenever it returns a record, all five reads succeeded, every field of the
  record is the value read for it, and the record is marked valid.
\<close>

theorem ReadObscuredBigInteger_all_or_nothing:
  assumes "ReadSerializableBigInteger scanner junk_hidden w base = (hidden, w1)"
      and "ReadSerializableBigInteger scanner junk_fake w1 (base + stride) = (fake, w2)"
      and "ReadUInt32 scanner w2 (base + stride + stride) = (crypto_key, w3)"
      and "ReadBool scanner w3 (base + stride + stride + 4) = (fake_active, w4)"
      and "ReadBool scanner w4 (base + stride + stride + 4 + 1) = (inited_v, w5)"
  shows "(hidden = None \<or> fake = None \<or> crypto_key = None \<or> fake_active = None
            \<or> inited_v = None \<longrightarrow>
          fst (ReadObscuredBigInteger (Some scanner) stride junk_hidden junk_fake w base) = None)
       \<and> (\<forall>r. fst (ReadObscuredBigInteger (Some scanner) stride junk_hidden junk_fake w base)
                 = Some r \<longrightarrow>
              hidden = Some (hidden_value r)
            \<and> fake = Some (fake_value r)
            \<and> crypto_key = Some (current_crypto_key r)
            \<and> fake_active = Some (fake_value_active r)
            \<and> inited_v = Some (inited r)
            \<and> ObscuredBigIntegerData.is_valid r)"
  using assms
  by (cases "IsValidPointer base"; cases hidden; cases fake; cases crypto_key;
      cases fake_active; cases inited_v)
     (auto simp add: ReadObscuredBigInteger_def)


lemma zero_ReadSerializableBigInteger:
  "4 \<le> w \<Longrightarrow> IsValidPointer a \<Longrightarrow>
   ReadSerializableBigInteger (example_scanner zero_memory) example_junk w a =
     (Some \<lparr>bigint_value = example_junk,
            raw_contents = \<lparr>BigIntegerContents.sign = 0, bits_ptr = 0, bits_length = 0,
                             bits_data = []\<rparr>,
            is_valid = True\<rparr>, w - 4)"
proof -
  assume w: "4 \<le> w" and a: "IsValidPointer a"
  have v: "ReadBigIntegerVerbose (Some (example_scanner zero_memory)) w a = (None, w - 2)"
    using w a
    by (simp add: ReadBigIntegerVerbose_def IsValidPointer_def MIN_VALID_POINTER_def
        ex_ReadInt32 ex_ReadUInt64 zero_memory_def le32_0 le64_0)
  have c: "ReadBigIntegerContents (example_scanner zero_memory) (w - 2) a =
      (Some \<lparr>BigIntegerContents.sign = 0, bits_ptr = 0, bits_length = 0, bits_data = []\<rparr>,
       w - 4)"
    using w
    by (simp add: ReadBigIntegerContents_def ex_ReadInt32 ex_ReadUInt64 zero_memory_def
        le32_0 le64_0)
  show ?thesis
    by (simp add: ReadSerializableBigInteger_def v c example_junk_def)
qed


lemma valid_pointer_112: "IsValidPointer (0x10000 + 112)"
  by (simp add: IsValidPointer_def MIN_VALID_POINTER_def MAX_VALID_POINTER_def)

theorem ReadObscuredBigInteger_all_or_nothing_witness:
  "fst (ReadObscuredBigInteger (Some (example_scanner zero_memory)) 112 example_junk example_junk
          11 0x10000)
     = Some \<lparr>hidden_value =
               \<lparr>bigint_value = example_junk,
                raw_contents = \<lparr>BigIntegerContents.sign = 0, bits_ptr = 0, bits_length = 0,
                                 bits_data = []\<rparr>,
                is_valid = True\<rparr>,
             fake_value =
               \<lparr>bigint_value = example_junk,
                raw_contents = \<lparr>BigIntegerContents.sign = 0, bits_ptr = 0, bits_length = 0,
                                 bits_data = []\<rparr>,
                is_valid = True\<rparr>,
             current_crypto_key = 0,
             fake_value_active = False,
             inited = False,
             is_valid = True\<rparr>
   \<and> ReadBool (example_scanner zero_memory) 0 (0x10000 + 112 + 112 + 4 + 1) = (None, 0)
   \<and> fst (ReadObscuredBigInteger (Some (example_scanner zero_memory)) 112 example_junk
            example_junk 10 0x10000) = None"
proof -
  let ?sbi = "\<lparr>bigint_value = example_junk,
            raw_contents = \<lparr>BigIntegerContents.sign = 0, bits_ptr = 0, bits_length = 0,
                             bits_data = []\<rparr>,
            is_valid = True\<rparr>"
  let ?sc = "example_scanner zero_memory"
  have a1: "ReadSerializableBigInteger ?sc example_junk 11 0x10000 = (Some ?sbi, 7)"
    using zero_ReadSerializableBigInteger [of 11, OF _ valid_pointers(1)] by simp
  have a2: "ReadSerializableBigInteger ?sc example_junk 7 (0x10000 + 112) = (Some ?sbi, 3)"
    using zero_ReadSerializableBigInteger [of 7, OF _ valid_pointer_112] by simp
  have a3: "ReadUInt32 ?sc 3 (0x10000 + 112 + 112) = (Some 0, 2)"
    by (simp add: ex_ReadUInt32 zero_memory_def le32_0)
  have a4: "ReadBool ?sc 2 (0x10000 + 112 + 112 + 4) = (Some False, 1)"
    by (simp add: ex_ReadBool zero_memory_def)
  have a5: "ReadBool ?sc 1 (0x10000 + 112 + 112 + 4 + 1) = (Some False, 0)"
    by (simp add: ex_ReadBool zero_memory_def)
  have b1: "ReadSerializableBigInteger ?sc example_junk 10 0x10000 = (Some ?sbi, 6)"
    using zero_ReadSerializableBigInteger [of 10, OF _ valid_pointers(1)] by simp
  have b2: "ReadSerializableBigInteger ?sc example_junk 6 (0x10000 + 112) = (Some ?sbi, 2)"
    using zero_ReadSerializableBigInteger [of 6, OF _ valid_pointer_112] by simp
  have b3: "ReadUInt32 ?sc 2 (0x10000 + 112 + 112) = (Some 0, 1)"
    by (simp add: ex_ReadUInt32 zero_memory_def le32_0)
  have b4: "ReadBool ?sc 1 (0x10000 + 112 + 112 + 4) = (Some False, 0)"
    by (simp add: ex_ReadBool zero_memory_def)
  have b5: "ReadBool ?sc 0 (0x10000 + 112 + 112 + 4 + 1) = (None, 0)"
    by (simp add: ex_ReadBool_dead)
  have full: "fst (ReadObscuredBigInteger (Some ?sc) 112 example_junk example_junk 11 0x10000)
      = Some \<lparr>hidden_value = ?sbi, fake_value = ?sbi, current_crypto_key = 0,
          fake_value_active = False, inited = False, is_valid = True\<rparr>"
    using valid_pointers(1) a1 a2 a3 a4 a5 by (simp add: ReadObscuredBigInteger_def)
  have short: "fst (ReadObscuredBigInteger (Some ?sc) 112 example_junk example_junk 10 0x10000)
      = None"
    using ReadObscuredBigInteger_all_or_nothing [OF b1 b2 b3 b4 b5] by blast
  from full b5 short show ?thesis by blast
qed

section \<open>Properties of the byte pattern matcher\<close>

text \<open>
  When the pattern is not longer than the region data no index leaves the data, neither
  size wraps, and the scan returns the addresses of exactly the offsets that are multiples
  of four and at which every byte not masked out agrees with the pattern, in ascending
  order.
\<close>

lemma ReadBytes_length:
  assumes "ReadBytes scanner w a n = (b, w')" and "b \<noteq> []"
  shows "length b = n \<and> n \<le> MAX_READ_SIZE"
  using assms
  by (auto simp: ReadBytes_def ReadMemory_def split: option.splits prod.splits if_splits)

lemma match_loop_in_bounds:
  assumes "mask_v = [] \<or> length pattern \<le> length mask_v"
      and "i + length pattern \<le> length region_data"
      and "length region_data < 2 ^ 64"
      and "j + n = length pattern"
  shows "match_loop region_data pattern mask_v i j n =
           Inr (\<forall>k. j \<le> k \<and> k < j + n \<longrightarrow>
                  (mask_v \<noteq> [] \<and> mask_v ! k = 0) \<or> region_data ! (i + k) = pattern ! k)"
  using assms(4)
proof (induction n arbitrary: j)
  case 0
  then show ?case by auto
next
  case (Suc n)
  from Suc.prems have j: "j < length pattern" and next_j: "Suc j + n = length pattern"
    by simp_all
  from j assms(2,3) have idx: "(i + j) mod 2 ^ 64 = i + j" and inb: "i + j < length region_data"
    by simp_all
  from j assms(1) have mj: "mask_v = [] \<or> j < length mask_v" by auto
  have split_range: "\<And>P. (\<forall>k. j \<le> k \<and> k < j + Suc n \<longrightarrow> P k)
      = (P j \<and> (\<forall>k. Suc j \<le> k \<and> k < Suc j + n \<longrightarrow> P k))"
    by (metis Suc_leD Suc_le_eq add_Suc add_Suc_right le_antisym less_add_Suc1 not_less_eq_eq)
  show ?case
    using mj inb Suc.IH [OF next_j]
    by (simp only: match_loop.simps idx split_range) auto
qed

lemma filter_stride:
  assumes "(4::nat) dvd i" and "i < n"
  shows "filter (\<lambda>k. 4 dvd k \<and> R k) [i..<n]
           = (if R i then [i] else []) @ filter (\<lambda>k. 4 dvd k \<and> R k) [i + 4..<n]"
proof -
  have skip: "filter (\<lambda>k. 4 dvd k \<and> R k) [Suc i..<n] = filter (\<lambda>k. 4 dvd k \<and> R k) [i + 4..<n]"
  proof (cases "i + 4 \<le> n")
    case True
    have none: "\<forall>k \<in> set [Suc i..<i + 4]. \<not> (4 dvd k \<and> R k)"
    proof
      fix k assume "k \<in> set [Suc i..<i + 4]"
      then have "i < k" "k < i + 4" by simp_all
      with assms(1) have "\<not> 4 dvd k" by presburger
      then show "\<not> (4 dvd k \<and> R k)" by simp
    qed
    have "[Suc i..<n] = [Suc i..<i + 4] @ [i + 4..<n]"
      using True by (metis Suc_leI add_Suc_right le_add1 less_add_Suc1 numeral_eq_Suc
          upt_add_eq_append le_Suc_ex less_imp_le_nat)
    then show ?thesis using none by (simp add: filter_empty_conv del: upt_Suc)
  next
    case False
    have none: "\<forall>k \<in> set [Suc i..<n]. \<not> (4 dvd k \<and> R k)"
    proof
      fix k assume "k \<in> set [Suc i..<n]"
      with False have "i < k" "k < i + 4" by simp_all
      with assms(1) have "\<not> 4 dvd k" by presburger
      then show "\<not> (4 dvd k \<and> R k)" by simp
    qed
    from False have "[i + 4..<n] = []" by simp
    with none show ?thesis by (simp add: filter_empty_conv del: upt_Suc)
  qed
  from assms(2) have "[i..<n] = i # [Suc i..<n]" by (simp add: upt_conv_Cons)
  with skip assms(1) show ?thesis by simp
qed


lemma scan_loop_in_bounds:
  assumes mask_ok: "mask_v = [] \<or> length pattern \<le> length mask_v"
      and fits: "length pattern \<le> length region_data"
      and small: "length region_data + 4 < 2 ^ 64"
      and aligned: "4 dvd i"
  shows "scan_loop region_data pattern mask_v base (length region_data - length pattern) i results
           = Some (Inr (results @ map (\<lambda>k. base + of_nat k)
                (filter (\<lambda>k. 4 dvd k \<and>
                     (\<forall>j. j < length pattern \<longrightarrow>
                        (mask_v \<noteq> [] \<and> mask_v ! j = 0) \<or> region_data ! (k + j) = pattern ! j))
                   [i..<Suc (length region_data - length pattern)])))"
  using aligned
proof (induction "Suc (length region_data - length pattern) - i" arbitrary: i results
    rule: less_induct)
  case less
  let ?bound = "length region_data - length pattern"
  let ?R = "\<lambda>k. \<forall>j. j < length pattern \<longrightarrow>
              (mask_v \<noteq> [] \<and> mask_v ! j = 0) \<or> region_data ! (k + j) = pattern ! j"
  show ?case
  proof (cases "i \<le> ?bound")
    case False
    then show ?thesis
      by (subst scan_loop.simps) simp
  next
    case True
    with fits have inb: "i + length pattern \<le> length region_data" by simp
    from small have small': "length region_data < 2 ^ 64" by simp
    have m: "match_loop region_data pattern mask_v i 0 (length pattern) = Inr (?R i)"
      using match_loop_in_bounds [OF mask_ok inb small', of 0 "length pattern"] by simp
    from True small have step: "(i + SCAN_ALIGNMENT) mod 2 ^ 64 = i + 4"
      by (simp add: SCAN_ALIGNMENT_def)
    from True have dec: "Suc ?bound - (i + 4) < Suc ?bound - i" by simp
    from less.prems have al: "4 dvd (i + 4)" by simp
    from True have lt: "i < Suc ?bound" by simp
    have IH: "scan_loop region_data pattern mask_v base ?bound (i + 4)
                (if ?R i then results @ [base + of_nat i] else results)
        = Some (Inr ((if ?R i then results @ [base + of_nat i] else results)
             @ map (\<lambda>k. base + of_nat k) (filter (\<lambda>k. 4 dvd k \<and> ?R k) [i + 4..<Suc ?bound])))"
      by (rule less.hyps [OF dec al])
    show ?thesis
      apply (subst scan_loop.simps)
      apply (simp only: True if_True m sum.case step IH)
      apply (subst filter_stride [OF less.prems lt, of ?R])
      apply simp
      done
  qed
qed

lemma ScanRegionForPattern_in_bounds:
  assumes rb: "ReadBytes scanner w (base_address region) (size_bytes region) = (region_data, w')"
      and ne: "pattern \<noteq> []"
      and fits: "length pattern \<le> length region_data"
      and mask_ok: "mask_v = [] \<or> length pattern \<le> length mask_v"
  shows "ScanRegionForPattern scanner w region pattern mask_v
           = (Some (Inr (map (\<lambda>k. base_address region + of_nat k)
                (filter (\<lambda>k. 4 dvd k \<and>
                     (\<forall>j. j < length pattern \<longrightarrow>
                        (mask_v \<noteq> [] \<and> mask_v ! j = 0) \<or> region_data ! (k + j) = pattern ! j))
                   [0..<Suc (length region_data - length pattern)]))), w')"
proof -
  from ne fits have nonempty: "region_data \<noteq> []" by auto
  from ReadBytes_length [OF rb nonempty] have "length region_data \<le> MAX_READ_SIZE" by simp
  then have small: "length region_data + 4 < 2 ^ 64" by (simp add: MAX_READ_SIZE_def)
  from fits small
  have bound: "nat ((int (length region_data) - int (length pattern)) mod 18446744073709551616)
      = length region_data - length pattern"
    by (simp add: nat_diff_distrib' flip: of_nat_diff)
  show ?thesis
    using scan_loop_in_bounds [OF mask_ok fits small, of 0 "base_address region" "[]"]
    by (simp add: ScanRegionForPattern_def rb ne nonempty bound del: upt_Suc)
qed

lemma ex_ReadBytes:
  "0 < w \<Longrightarrow> 0 < n \<Longrightarrow> n \<le> MAX_READ_SIZE \<Longrightarrow>
   ReadBytes (example_scanner m) w a n = (map (\<lambda>k. m (a + of_nat k)) [0..<n], w - 1)"
  by (simp add: ReadBytes_def ex_ReadMemory)

text \<open>
  C8. Mask semantics. For a non-empty pattern with a mask that covers it, a region
  whose data was read, and an offset that is a multiple of \<open>SCAN_ALIGNMENT\<close> with the
  whole window inside the data: if the window agrees with the pattern at every position
  whose mask byte is not 0, whatever it holds at the positions whose mask byte is 0, then
  the scan succeeds and reports the address of that offset.
\<close>

theorem mask_semantics:
  assumes "ReadBytes scanner w (base_address region) (size_bytes region) = (region_data, w')"
      and "pattern \<noteq> []"
      and "length pattern \<le> length mask_v"
      and "SCAN_ALIGNMENT dvd i"
      and "i + length pattern \<le> length region_data"
      and "\<forall>j. j < length pattern \<and> mask_v ! j \<noteq> 0 \<longrightarrow> region_data ! (i + j) = pattern ! j"
  shows "\<exists>results.
           ScanRegionForPattern scanner w region pattern mask_v = (Some (Inr results), w')
         \<and> base_address region + of_nat i \<in> set results"
proof -
  let ?R = "\<lambda>k. \<forall>j. j < length pattern \<longrightarrow>
              (mask_v \<noteq> [] \<and> mask_v ! j = 0) \<or> region_data ! (k + j) = pattern ! j"
  let ?offsets = "filter (\<lambda>k. 4 dvd k \<and> ?R k) [0..<Suc (length region_data - length pattern)]"
  from assms(5) have fits: "length pattern \<le> length region_data" by simp
  from assms(3) have mask_ok: "mask_v = [] \<or> length pattern \<le> length mask_v" by simp
  from assms(2,3) have mask_ne: "mask_v \<noteq> []" by (cases pattern) auto
  have scan: "ScanRegionForPattern scanner w region pattern mask_v
      = (Some (Inr (map (\<lambda>k. base_address region + of_nat k) ?offsets)), w')"
    by (rule ScanRegionForPattern_in_bounds [OF assms(1,2) fits mask_ok])
  from assms(6) mask_ne have "?R i" by auto
  moreover from assms(4) have "4 dvd i" by (simp add: SCAN_ALIGNMENT_def)
  moreover from assms(5) have "i < Suc (length region_data - length pattern)" by simp
  ultimately have "i \<in> set ?offsets" by (simp del: upt_Suc)
  then have "(\<lambda>k. base_address region + of_nat k) i
      \<in> (\<lambda>k. base_address region + of_nat k) ` set ?offsets"
    by (rule imageI)
  then have "base_address region + of_nat i
      \<in> set (map (\<lambda>k. base_address region + of_nat k) ?offsets)"
    by (simp only: set_map)
  with scan show ?thesis by blast
qed

theorem mask_semantics_witness:
  "\<exists>results.
     ScanRegionForPattern (example_scanner deadbeef_memory) 1
        \<lparr>base_address = 0x1003C, size_bytes = 8, protection = 4, name = ''heap''\<rparr>
        [0xDE, 0x00, 0x00, 0xEF] [1, 0, 0, 1] = (Some (Inr results), 0)
     \<and> 0x10040 \<in> set results"
proof -
  let ?region = "\<lparr>base_address = 0x1003C, size_bytes = 8, protection = 4, name = ''heap''\<rparr>"
  have rb: "ReadBytes (example_scanner deadbeef_memory) 1 (base_address ?region) (size_bytes ?region)
      = ([0, 0, 0, 0, 0xDE, 0xAD, 0xBE, 0xEF], 0)"
    by (simp add: ex_ReadBytes MAX_READ_SIZE_def upt8 deadbeef_memory_def)
  have h2: "[0xDE, 0x00, 0x00, 0xEF :: byte] \<noteq> []" by simp
  have h3: "length [0xDE, 0x00, 0x00, 0xEF :: byte] \<le> length [1, 0, 0, 1 :: byte]" by simp
  have h4: "SCAN_ALIGNMENT dvd 4" by (simp add: SCAN_ALIGNMENT_def)
  have h5: "4 + length [0xDE, 0x00, 0x00, 0xEF :: byte]
      \<le> length [0, 0, 0, 0, 0xDE, 0xAD, 0xBE, 0xEF :: byte]" by simp
  have h6: "\<forall>j. j < length [0xDE, 0x00, 0x00, 0xEF :: byte] \<and> [1, 0, 0, 1 :: byte] ! j \<noteq> 0
      \<longrightarrow> [0, 0, 0, 0, 0xDE, 0xAD, 0xBE, 0xEF :: byte] ! (4 + j)
            = [0xDE, 0x00, 0x00, 0xEF :: byte] ! j"
  proof (intro allI impI)
    fix j
    assume "j < length [0xDE, 0x00, 0x00, 0xEF :: byte] \<and> [1, 0, 0, 1 :: byte] ! j \<noteq> 0"
    then have "j < 4" and nz: "[1, 0, 0, 1 :: byte] ! j \<noteq> 0" by simp_all
    then consider "j = 0" | "j = 1" | "j = 2" | "j = 3" by linarith
    then show "[0, 0, 0, 0, 0xDE, 0xAD, 0xBE, 0xEF :: byte] ! (4 + j)
            = [0xDE, 0x00, 0x00, 0xEF :: byte] ! j"
      using nz by cases (simp_all add: numeral_eq_Suc)
  qed
  from mask_semantics [OF rb h2 h3 h4 h5 h6] show ?thesis by simp
qed

lemma window_eq:
  assumes "k + length pattern \<le> length region_data"
  shows "(\<forall>j. j < length pattern \<longrightarrow> region_data ! (k + j) = pattern ! j)
           = (take (length pattern) (drop k region_data) = pattern)"
  using assms by (auto simp: list_eq_iff_nth_eq)

lemma filter_upt_single:
  assumes "k < n" and "Q k" and "\<forall>j. j < n \<and> j \<noteq> k \<longrightarrow> \<not> Q j"
  shows "filter Q [0..<n] = [k]"
proof -
  from assms(1) have "[0..<n] = [0..<k] @ k # [Suc k..<n]"
    by (metis le0 less_imp_le_nat upt_add_eq_append le_Suc_ex upt_conv_Cons)
  moreover from assms(1,3) have "filter Q [0..<k] = []" by (auto simp: filter_empty_conv)
  moreover from assms(3) have "filter Q [Suc k..<n] = []" by (auto simp: filter_empty_conv)
  ultimately show ?thesis using assms(2) by simp
qed

text \<open>
  C9. The stride of the scan. For a pattern that fits the region data (unmasked, or with
  a mask that covers it) the scan returns the addresses of a strictly ascending list of
  offsets, which are exactly the multiples of \<open>SCAN_ALIGNMENT\<close> at which the window
  matches: an occurrence at any other offset is not reported. For region data that hold
  \<open>DE AD BE EF\<close> at offset \<open>0x40\<close> and at no other offset, the scan for this pattern
  without mask returns exactly the one address \<open>base_address + 0x40\<close>.
\<close>

theorem scan_stride:
  assumes "ReadBytes scanner w (base_address region) (size_bytes region) = (region_data, w')"
  shows "(pattern \<noteq> [] \<and> length pattern \<le> length region_data
            \<and> (mask_v = [] \<or> length pattern \<le> length mask_v) \<longrightarrow>
          (\<exists>offsets.
             ScanRegionForPattern scanner w region pattern mask_v
               = (Some (Inr (map (\<lambda>k. base_address region + of_nat k) offsets)), w')
           \<and> sorted_wrt (<) offsets
           \<and> (\<forall>k. k \<in> set offsets \<longleftrightarrow>
                  SCAN_ALIGNMENT dvd k \<and> k + length pattern \<le> length region_data
                \<and> (\<forall>j. j < length pattern \<longrightarrow>
                      (mask_v \<noteq> [] \<and> mask_v ! j = 0)
                    \<or> region_data ! (k + j) = pattern ! j))))
       \<and> (take 4 (drop 0x40 region_data) = [0xDE, 0xAD, 0xBE, 0xEF]
            \<and> (\<forall>k. k \<noteq> 0x40 \<longrightarrow> take 4 (drop k region_data) \<noteq> [0xDE, 0xAD, 0xBE, 0xEF])
          \<longrightarrow>
          ScanRegionForPattern scanner w region [0xDE, 0xAD, 0xBE, 0xEF] []
            = (Some (Inr [base_address region + 0x40]), w'))"
proof (intro conjI impI)
  assume h: "pattern \<noteq> [] \<and> length pattern \<le> length region_data
            \<and> (mask_v = [] \<or> length pattern \<le> length mask_v)"
  let ?R = "\<lambda>k. \<forall>j. j < length pattern \<longrightarrow>
              (mask_v \<noteq> [] \<and> mask_v ! j = 0) \<or> region_data ! (k + j) = pattern ! j"
  let ?offsets = "filter (\<lambda>k. 4 dvd k \<and> ?R k) [0..<Suc (length region_data - length pattern)]"
  from h have ne: "pattern \<noteq> []" and fits: "length pattern \<le> length region_data"
    and mask_ok: "mask_v = [] \<or> length pattern \<le> length mask_v" by auto
  have scan: "ScanRegionForPattern scanner w region pattern mask_v
      = (Some (Inr (map (\<lambda>k. base_address region + of_nat k) ?offsets)), w')"
    by (rule ScanRegionForPattern_in_bounds [OF assms ne fits mask_ok])
  have sorted: "sorted_wrt (<) ?offsets"
    by (rule sorted_wrt_filter) (simp del: upt_Suc)
  have mem: "\<forall>k. k \<in> set ?offsets \<longleftrightarrow>
       SCAN_ALIGNMENT dvd k \<and> k + length pattern \<le> length region_data \<and> ?R k"
    using fits by (auto simp: SCAN_ALIGNMENT_def simp del: upt_Suc)
  from scan sorted mem
  show "\<exists>offsets.
             ScanRegionForPattern scanner w region pattern mask_v
               = (Some (Inr (map (\<lambda>k. base_address region + of_nat k) offsets)), w')
           \<and> sorted_wrt (<) offsets
           \<and> (\<forall>k. k \<in> set offsets \<longleftrightarrow>
                  SCAN_ALIGNMENT dvd k \<and> k + length pattern \<le> length region_data
                \<and> (\<forall>j. j < length pattern \<longrightarrow>
                      (mask_v \<noteq> [] \<and> mask_v ! j = 0)
                    \<or> region_data ! (k + j) = pattern ! j))"
    by blast
next
  let ?p = "[0xDE, 0xAD, 0xBE, 0xEF] :: byte list"
  assume h: "take 4 (drop 0x40 region_data) = ?p
            \<and> (\<forall>k. k \<noteq> 0x40 \<longrightarrow> take 4 (drop k region_data) \<noteq> ?p)"
  let ?R = "\<lambda>k. \<forall>j. j < length ?p \<longrightarrow>
              (([]::byte list) \<noteq> [] \<and> ([]::byte list) ! j = 0) \<or> region_data ! (k + j) = ?p ! j"
  let ?Q = "\<lambda>k. 4 dvd k \<and> ?R k"
  from h have at: "take 4 (drop 0x40 region_data) = ?p"
    and nowhere_else: "\<forall>k. k \<noteq> 0x40 \<longrightarrow> take 4 (drop k region_data) \<noteq> ?p" by simp_all
  from at have "length (take 4 (drop 0x40 region_data)) = 4" by simp
  then have len: "0x40 + 4 \<le> length region_data" by simp
  then have fits: "length ?p \<le> length region_data" by simp
  have lp: "length ?p = 4" by simp
  have R_iff: "?R k \<longleftrightarrow> take 4 (drop k region_data) = ?p"
    if "k + 4 \<le> length region_data" for k
  proof -
    from that have "k + length ?p \<le> length region_data" by simp
    from window_eq [OF this]
    have "(\<forall>j. j < length ?p \<longrightarrow> region_data ! (k + j) = ?p ! j)
        = (take 4 (drop k region_data) = ?p)"
      by (simp only: lp)
    then show ?thesis by simp
  qed
  have q64: "?Q 0x40" using R_iff [of "0x40"] len at by simp
  have others: "\<forall>j. j < Suc (length region_data - length ?p) \<and> j \<noteq> 0x40 \<longrightarrow> \<not> ?Q j"
  proof (intro allI impI)
    fix j assume j: "j < Suc (length region_data - length ?p) \<and> j \<noteq> 0x40"
    from j [unfolded lp] len have "j + 4 \<le> length region_data" by arith
    from R_iff [OF this] j nowhere_else show "\<not> ?Q j" by simp
  qed
  from len have lt: "0x40 < Suc (length region_data - length ?p)" unfolding lp by arith
  have offs: "filter ?Q [0..<Suc (length region_data - length ?p)] = [0x40]"
    by (rule filter_upt_single [OF lt q64 others])
  have "ScanRegionForPattern scanner w region ?p []
      = (Some (Inr (map (\<lambda>k. base_address region + of_nat k)
           (filter ?Q [0..<Suc (length region_data - length ?p)]))), w')"
    by (rule ScanRegionForPattern_in_bounds [OF assms _ fits]) simp_all
  then show "ScanRegionForPattern scanner w region ?p []
            = (Some (Inr [base_address region + 0x40]), w')"
    by (simp only: offs) simp
qed

lemma deadbeef_first_byte:
  "deadbeef_memory a = 0xDE \<Longrightarrow> a = 0x10040"
  by (simp add: deadbeef_memory_def split: if_splits)

lemma offset_0x40:
  assumes "(0x10000 :: MemoryAddress) + of_nat k = 0x10040" and "k \<le> 0x40"
  shows "k = 0x40"
proof -
  from assms(1) have "(of_nat k :: MemoryAddress) = 0x10040 - 0x10000"
    by (metis add_diff_cancel_left')
  then have "(of_nat k :: MemoryAddress) = 0x40" by simp
  then have "unat (of_nat k :: MemoryAddress) = unat (0x40 :: MemoryAddress)" by simp
  moreover from assms(2) have "k mod 2 ^ 64 = k" by simp
  ultimately show ?thesis by (simp add: unat_of_nat)
qed

theorem scan_stride_witness:
  "ScanRegionForPattern (example_scanner deadbeef_memory) 1
      \<lparr>base_address = 0x10000, size_bytes = 68, protection = 4, name = ''heap''\<rparr>
      [0xDE, 0xAD, 0xBE, 0xEF] [] = (Some (Inr [0x10040]), 0)
   \<and> ReadBytes (example_scanner deadbeef_memory) 1 0x1003F 8
       = ([0, 0xDE, 0xAD, 0xBE, 0xEF, 0, 0, 0], 0)
   \<and> ScanRegionForPattern (example_scanner deadbeef_memory) 1
      \<lparr>base_address = 0x1003F, size_bytes = 8, protection = 4, name = ''heap''\<rparr>
      [0xDE, 0xAD, 0xBE, 0xEF] [] = (Some (Inr []), 0)"
proof -
  let ?sc = "example_scanner deadbeef_memory"
  let ?p = "[0xDE, 0xAD, 0xBE, 0xEF] :: byte list"
  let ?r1 = "\<lparr>base_address = 0x10000, size_bytes = 68, protection = 4, name = ''heap''\<rparr>"
  let ?r2 = "\<lparr>base_address = 0x1003F, size_bytes = 8, protection = 4, name = ''heap''\<rparr>"
  let ?f = "\<lambda>k. deadbeef_memory (0x10000 + of_nat k)"
  let ?b1 = "map ?f [0..<68]"
  let ?b2 = "[0, 0xDE, 0xAD, 0xBE, 0xEF, 0, 0, 0] :: byte list"
  have rb1: "ReadBytes ?sc 1 (base_address ?r1) (size_bytes ?r1) = (?b1, 0)"
    by (simp add: ex_ReadBytes MAX_READ_SIZE_def)
  have u: "[64..<68] = [64, 65, 66, 67]" by (simp add: upt_rec)
  have at: "take 4 (drop 0x40 ?b1) = ?p"
    by (simp add: drop_map take_map u deadbeef_memory_def)
  have nowhere_else: "\<forall>k. k \<noteq> 0x40 \<longrightarrow> take 4 (drop k ?b1) \<noteq> ?p"
  proof (intro allI impI notI)
    fix k :: nat
    assume ne: "k \<noteq> 0x40" and eq: "take 4 (drop k ?b1) = ?p"
    from eq have "length (take 4 (drop k ?b1)) = 4" by simp
    then have k: "k \<le> 0x40" by simp
    then have lt: "k < 68" by simp
    from eq have "take 4 (drop k ?b1) ! 0 = 0xDE" by simp
    with k have "?b1 ! k = 0xDE" by simp
    with lt have "?f k = 0xDE" by simp
    then have "(0x10000 :: MemoryAddress) + of_nat k = 0x10040" by (rule deadbeef_first_byte)
    from offset_0x40 [OF this k] ne show False by simp
  qed
  have s1: "ScanRegionForPattern ?sc 1 ?r1 ?p [] = (Some (Inr [0x10040]), 0)"
    using scan_stride [OF rb1, of ?p "[]"] at nowhere_else by simp
  have rb2': "ReadBytes ?sc 1 0x1003F 8 = (?b2, 0)"
    by (simp add: ex_ReadBytes MAX_READ_SIZE_def upt8 deadbeef_memory_def)
  then have rb2: "ReadBytes ?sc 1 (base_address ?r2) (size_bytes ?r2) = (?b2, 0)" by simp
  have hyp: "?p \<noteq> [] \<and> length ?p \<le> length ?b2
      \<and> (([]::byte list) = [] \<or> length ?p \<le> length ([]::byte list))"
    by simp
  from scan_stride [OF rb2, of ?p "[]"] hyp
  obtain offsets where
    res: "ScanRegionForPattern ?sc 1 ?r2 ?p []
        = (Some (Inr (map (\<lambda>k. base_address ?r2 + of_nat k) offsets)), 0)"
    and mem: "\<forall>k. k \<in> set offsets \<longleftrightarrow>
         SCAN_ALIGNMENT dvd k \<and> k + length ?p \<le> length ?b2
         \<and> (\<forall>j. j < length ?p \<longrightarrow>
               (([]::byte list) \<noteq> [] \<and> ([]::byte list) ! j = 0) \<or> ?b2 ! (k + j) = ?p ! j)"
    by blast
  have "set offsets = {}"
  proof (rule ccontr)
    assume "set offsets \<noteq> {}"
    then obtain k where "k \<in> set offsets" by (cases offsets) auto
    with mem have a: "4 dvd k" and le: "k + 4 \<le> 8" and first: "?b2 ! (k + 0) = ?p ! 0"
      by (auto simp: SCAN_ALIGNMENT_def)
    from a le have "k = 0 \<or> k = 4" by presburger
    with first show False by auto
  qed
  then have "offsets = []" by simp
  with res have s2: "ScanRegionForPattern ?sc 1 ?r2 ?p [] = (Some (Inr []), 0)" by simp
  from s1 rb2' s2 show ?thesis by blast
qed

text \<open>
  C10. A pattern longer than the region data. The loop bound, the unsigned difference of
  the two sizes, wraps to \<open>2 ^ 64 - 3\<close> for one byte of data and a pattern of four. When
  the byte equals the first pattern byte the comparison of the second pattern byte reads
  \<open>region_data[1]\<close>, past the end; when it differs the scan goes on to offset 4 and
  reads \<open>region_data[4]\<close>. Neither scan returns the empty result.
\<close>

theorem scan_reads_past_short_region:
  "ReadBytes (example_scanner deadbeef_memory) 1 0x10040 1 = ([0xDE], 0)
   \<and> ScanRegionForPattern (example_scanner deadbeef_memory) 1
       \<lparr>base_address = 0x10040, size_bytes = 1, protection = 4, name = ''heap''\<rparr>
       [0xDE, 0xAD, 0xBE, 0xEF] [] = (Some (Inl OutOfBounds), 0)
   \<and> ReadBytes (example_scanner deadbeef_memory) 1 0x10000 1 = ([0x00], 0)
   \<and> ScanRegionForPattern (example_scanner deadbeef_memory) 1
       \<lparr>base_address = 0x10000, size_bytes = 1, protection = 4, name = ''heap''\<rparr>
       [0xDE, 0xAD, 0xBE, 0xEF] [] = (Some (Inl OutOfBounds), 0)"
proof -
  let ?p = "[0xDE, 0xAD, 0xBE, 0xEF] :: byte list"
  have rb1: "ReadBytes (example_scanner deadbeef_memory) 1 0x10040 1 = ([0xDE], 0)"
    and rb2: "ReadBytes (example_scanner deadbeef_memory) 1 0x10000 1 = ([0x00], 0)"
    by (simp_all add: ex_ReadBytes MAX_READ_SIZE_def upt1 deadbeef_memory_def)
  have bound: "nat ((int (length [0xDE :: byte]) - int (length ?p)) mod 2 ^ 64)
      = 18446744073709551613"
    and bound0: "nat ((int (length [0x00 :: byte]) - int (length ?p)) mod 2 ^ 64)
      = 18446744073709551613"
    by simp_all
  have m1: "match_loop [0xDE] ?p [] 0 0 (length ?p) = Inl OutOfBounds"
    by simp
  have m2: "match_loop [0x00] ?p [] 0 0 (length ?p) = Inr False"
    by simp
  have m3: "match_loop [0x00] ?p [] 4 0 (length ?p) = Inl OutOfBounds"
    by simp
  have l1: "scan_loop [0xDE] ?p [] 0x10040 18446744073709551613 0 [] = Some (Inl OutOfBounds)"
    by (subst scan_loop.simps) (simp add: m1)
  have l3: "scan_loop [0x00] ?p [] 0x10000 18446744073709551613 4 [] = Some (Inl OutOfBounds)"
    by (subst scan_loop.simps) (simp add: m3)
  have l2: "scan_loop [0x00] ?p [] 0x10000 18446744073709551613 0 [] = Some (Inl OutOfBounds)"
    by (subst scan_loop.simps) (simp add: m2 SCAN_ALIGNMENT_def l3)
  have s1: "ScanRegionForPattern (example_scanner deadbeef_memory) 1
       \<lparr>base_address = 0x10040, size_bytes = 1, protection = 4, name = ''heap''\<rparr>
       ?p [] = (Some (Inl OutOfBounds), 0)"
    using l1 rb1 by (simp add: ScanRegionForPattern_def)
  have s2: "ScanRegionForPattern (example_scanner deadbeef_memory) 1
       \<lparr>base_address = 0x10000, size_bytes = 1, protection = 4, name = ''heap''\<rparr>
       ?p [] = (Some (Inl OutOfBounds), 0)"
    using l2 rb2 by (simp add: ScanRegionForPattern_def)
  from rb1 s1 rb2 s2 show ?thesis by blast
qed

end
